theory Spec2Isabelle
  imports Complex_Main "HOL-Library.Signed_Division"
begin

section \<open>Numbers of the toolkit\<close>

text \<open>
  The layout computes with Go's \<open>int\<close>, \<open>float32\<close> and \<open>float64\<close>.
  Integers are modelled by \<open>int\<close>: weights, counts and cursors are taken to stay inside
  the range where Go's integer arithmetic does not wrap.
  A floating-point value is modelled by \<open>gofloat\<close>: a finite value carries its exact
  rational, and the three special values that a division by zero produces in Go (no panic
  is raised there) are kept apart. Rounding to the binary formats and the sign of zero
  are outside the model; every divisor of the program is the conversion of an integer,
  so a zero divisor is always the positive zero.
\<close>

datatype gofloat = Fin rat | PInf | NInf | NaN

fun fneg :: "gofloat \<Rightarrow> gofloat" where
  "fneg (Fin a) = Fin (- a)"
| "fneg PInf = NInf"
| "fneg NInf = PInf"
| "fneg NaN = NaN"

fun fadd :: "gofloat \<Rightarrow> gofloat \<Rightarrow> gofloat" where
  "fadd (Fin a) (Fin b) = Fin (a + b)"
| "fadd NaN y = NaN"
| "fadd x NaN = NaN"
| "fadd PInf NInf = NaN"
| "fadd NInf PInf = NaN"
| "fadd PInf y = PInf"
| "fadd NInf y = NInf"
| "fadd x PInf = PInf"
| "fadd x NInf = NInf"

definition fsub :: "gofloat \<Rightarrow> gofloat \<Rightarrow> gofloat" where
  "fsub x y = fadd x (fneg y)"

text \<open>The sign of a value, for products and quotients of infinities: \<open>None\<close> for NaN.\<close>

fun fsign :: "gofloat \<Rightarrow> int option" where
  "fsign (Fin a) = Some (if a < 0 then - 1 else if a = 0 then 0 else 1)"
| "fsign PInf = Some 1"
| "fsign NInf = Some (- 1)"
| "fsign NaN = None"

definition inf_of_sign :: "int \<Rightarrow> gofloat" where
  "inf_of_sign s = (if s < 0 then NInf else if s = 0 then NaN else PInf)"

fun fmul :: "gofloat \<Rightarrow> gofloat \<Rightarrow> gofloat" where
  "fmul (Fin a) (Fin b) = Fin (a * b)"
| "fmul x y = (case (fsign x, fsign y) of
      (Some s, Some t) \<Rightarrow> inf_of_sign (s * t)
    | _ \<Rightarrow> NaN)"

fun fdiv :: "gofloat \<Rightarrow> gofloat \<Rightarrow> gofloat" where
  "fdiv (Fin a) (Fin b) =
     (if b = 0 then (if a < 0 then NInf else if a = 0 then NaN else PInf)
      else Fin (a / b))"
| "fdiv NaN y = NaN"
| "fdiv x NaN = NaN"
| "fdiv (Fin a) y = Fin 0"
| "fdiv x (Fin b) = (if b < 0 then fneg x else x)"
| "fdiv x y = NaN"

text \<open>Go's \<open>x > y\<close> on floats: false as soon as one side is NaN.\<close>

fun fgt :: "gofloat \<Rightarrow> gofloat \<Rightarrow> bool" where
  "fgt (Fin a) (Fin b) = (a > b)"
| "fgt NaN y = False"
| "fgt x NaN = False"
| "fgt PInf y = (y \<noteq> PInf)"
| "fgt x PInf = False"
| "fgt NInf y = False"
| "fgt x NInf = True"

definition float_of_int :: "int \<Rightarrow> gofloat" where
  "float_of_int k = Fin (of_int k)"

section \<open>Geometry and theme of the host toolkit\<close>

text \<open>
  Modelled from the spec: the toolkit's \<open>Size\<close> and \<open>Position\<close> value types and
  their constructors \<open>fyne.NewSize\<close> and \<open>fyne.NewPos\<close> are not among the sources;
  a size is a width and a height, a position an x and a y, all \<open>float32\<close>.
\<close>

record Size =
  Width :: gofloat
  Height :: gofloat

record Position =
  X :: gofloat
  Y :: gofloat

definition NewSize :: "gofloat \<Rightarrow> gofloat \<Rightarrow> Size" where
  "NewSize w h = \<lparr>Width = w, Height = h\<rparr>"

definition NewPos :: "gofloat \<Rightarrow> gofloat \<Rightarrow> Position" where
  "NewPos x y = \<lparr>X = x, Y = y\<rparr>"

text \<open>
  Modelled from the spec: \<open>fyne.Max\<close>, of the toolkit's geometry file, is not among the
  sources. It returns the larger of two values: the first when it is greater, the second
  otherwise.
\<close>

definition Max_f :: "gofloat \<Rightarrow> gofloat \<Rightarrow> gofloat" where
  "Max_f x y = (if fgt x y then x else y)"

text \<open>
  Modelled from the spec: \<open>Size.Max\<close> is not among the sources; the spec has a "Size
  value type with component-wise max".
\<close>

definition Size_Max :: "Size \<Rightarrow> Size \<Rightarrow> Size" where
  "Size_Max s s2 = NewSize (Max_f (Width s) (Width s2)) (Max_f (Height s) (Height s2))"

text \<open>
  Modelled from the spec: \<open>Size.Add\<close> is not among the sources; the spec has a "Size
  value type with component-wise arithmetic".
\<close>

definition Size_Add :: "Size \<Rightarrow> Size \<Rightarrow> Size" where
  "Size_Add s v = NewSize (fadd (Width s) (Width v)) (fadd (Height s) (Height v))"

text \<open>
  What the layout reads from outside itself: the theme's unit padding
  (\<open>theme.Padding()\<close>), whether the device is held horizontally
  (\<open>fyne.IsHorizontal(fyne.CurrentDevice().Orientation())\<close>), and the integer that the
  platform gives for the conversion of an infinity or a NaN (Go leaves it to the
  implementation).
\<close>

record env =
  Padding :: gofloat
  deviceHorizontal :: bool
  intOfNonFinite :: "gofloat \<Rightarrow> int"

text \<open>
  Modelled from the spec: the toolkit's \<open>CanvasObject\<close> is not among the sources. A
  child is an "opaque visual object exposing visible, minSize(), move(pos), resize(size)";
  the record keeps what the first two return and the position and the size that the last
  two set. The children of one call are taken to be distinct objects.
\<close>

record CanvasObject =
  obj_visible :: bool
  obj_minSize :: Size
  obj_pos :: Position
  obj_size :: Size

definition Move :: "Position \<Rightarrow> CanvasObject \<Rightarrow> CanvasObject" where
  "Move p c = c\<lparr>obj_pos := p\<rparr>"

definition Resize :: "Size \<Rightarrow> CanvasObject \<Rightarrow> CanvasObject" where
  "Resize s c = c\<lparr>obj_size := s\<rparr>"

text \<open>
  Modelled from the spec: \<open>getLeading\<close>, a helper of the toolkit's grid layout, is not
  among the sources. By the spec the leading edge of a cell is
  "(cellSize \<times> cellIndex) + padding \<times> cellIndex".
\<close>

definition getLeading :: "env \<Rightarrow> gofloat \<Rightarrow> int \<Rightarrow> gofloat" where
  "getLeading e sz offset =
     fadd (fmul sz (float_of_int offset)) (fmul (Padding e) (float_of_int offset))"

text \<open>
  Modelled from the spec: \<open>getTrailing\<close>, a helper of the toolkit's grid layout, is not
  among the sources. By the spec the far corner of a child is "the trailing edge of the
  last unit cell it spans": the leading edge of that cell plus one cell size.
\<close>

definition getTrailing :: "env \<Rightarrow> gofloat \<Rightarrow> int \<Rightarrow> gofloat" where
  "getTrailing e sz offset = fadd (getLeading e sz offset) sz"

section \<open>The weighted grid layout\<close>

record weightedGridLayout =
  Cols :: "int list"
  TotalCols :: int
  vertical :: bool
  adapt :: bool

datatype panic = IndexOutOfRange | IntegerDivideByZero

fun sum_ints :: "int list \<Rightarrow> int" where
  "sum_ints cols = foldl (\<lambda>res col. res + col) 0 cols"

definition NewAdaptiveWeightedGridLayout :: "int list \<Rightarrow> weightedGridLayout" where
  "NewAdaptiveWeightedGridLayout rowcols =
     \<lparr>Cols = rowcols, TotalCols = sum_ints rowcols, vertical = False, adapt = True\<rparr>"

definition NewWeightedGridLayoutWithColumns :: "int list \<Rightarrow> weightedGridLayout" where
  "NewWeightedGridLayoutWithColumns cols =
     \<lparr>Cols = cols, TotalCols = sum_ints cols, vertical = False, adapt = False\<rparr>"

definition NewWeightedGridLayout :: "int list \<Rightarrow> weightedGridLayout" where
  "NewWeightedGridLayout cols = NewWeightedGridLayoutWithColumns cols"

definition NewWeightedGridLayoutWithRows :: "int list \<Rightarrow> weightedGridLayout" where
  "NewWeightedGridLayoutWithRows rows =
     \<lparr>Cols = rows, TotalCols = sum_ints rows, vertical = True, adapt = False\<rparr>"

definition horizontal :: "weightedGridLayout \<Rightarrow> env \<Rightarrow> bool" where
  "horizontal g e = (if adapt g then deviceHorizontal e else \<not> vertical g)"

text \<open>\<open>g.Cols[i]\<close>: Go panics when the index is not below the length of the slice.\<close>

definition index_Cols :: "weightedGridLayout \<Rightarrow> nat \<Rightarrow> panic + int" where
  "index_Cols g i = (if i < length (Cols g) then Inr (Cols g ! i) else Inl IndexOutOfRange)"

text \<open>The loop of \<open>countRows\<close>, from child number \<open>i\<close> on, with the count so far.\<close>

fun countLoop :: "weightedGridLayout \<Rightarrow> nat \<Rightarrow> int \<Rightarrow> CanvasObject list \<Rightarrow> panic + int" where
  "countLoop g i count [] = Inr count"
| "countLoop g i count (child # objects) =
     (if obj_visible child then
        (case index_Cols g i of
           Inl p \<Rightarrow> Inl p
         | Inr w \<Rightarrow> countLoop g (Suc i) (count + w) objects)
      else countLoop g (Suc i) count objects)"

text \<open>\<open>int(math.Ceil(x))\<close>.\<close>

definition int_Ceil :: "env \<Rightarrow> gofloat \<Rightarrow> int" where
  "int_Ceil e x = (case x of Fin a \<Rightarrow> \<lceil>a\<rceil> | _ \<Rightarrow> intOfNonFinite e x)"

definition countRows :: "weightedGridLayout \<Rightarrow> env \<Rightarrow> CanvasObject list \<Rightarrow> panic + int" where
  "countRows g e objects =
     (case countLoop g 0 0 objects of
        Inl p \<Rightarrow> Inl p
      | Inr count \<Rightarrow> Inr (int_Ceil e (fdiv (float_of_int count) (float_of_int (TotalCols g)))))"

text \<open>
  The cell sizes of \<open>Layout\<close> (the statements before its loop), for a row count \<open>rows\<close>.
\<close>

definition cellSizes :: "weightedGridLayout \<Rightarrow> env \<Rightarrow> int \<Rightarrow> Size \<Rightarrow> gofloat \<times> gofloat" where
  "cellSizes g e rows sz =
     (let padWidth = fmul (float_of_int (TotalCols g - 1)) (Padding e);
          padHeight = fmul (float_of_int (rows - 1)) (Padding e);
          cellWidth = fdiv (fsub (Width sz) padWidth) (float_of_int (TotalCols g));
          cellHeight = fdiv (fsub (Height sz) padHeight) (float_of_int rows)
      in if \<not> horizontal g e then
           (fdiv (fsub (Width sz) padHeight) (float_of_int rows),
            fdiv (fsub (Height sz) padWidth) (float_of_int (TotalCols g)))
         else (cellWidth, cellHeight))"

text \<open>
  The inner loop of \<open>Layout\<close>: \<open>spn\<close> single-unit steps of the cursor \<open>(row, col, i)\<close>.
  \<open>(i+1) % g.TotalCols\<close> is Go's remainder, which panics on a zero divisor.
\<close>

function advance :: "weightedGridLayout \<Rightarrow> env \<Rightarrow> int \<Rightarrow> int \<times> int \<times> int \<Rightarrow> panic + int \<times> int \<times> int" where
  "advance g e spn (row, col, i) =
     (if spn > 0 then
        (if TotalCols g = 0 then Inl IntegerDivideByZero
         else if horizontal g e then
           (if (i + 1) smod TotalCols g = 0
            then advance g e (spn - 1) (row + 1, 0, i + 1)
            else advance g e (spn - 1) (row, col + 1, i + 1))
         else
           (if (i + 1) smod TotalCols g = 0
            then advance g e (spn - 1) (0, col + 1, i + 1)
            else advance g e (spn - 1) (row + 1, col, i + 1)))
      else Inr (row, col, i))"
  by pat_completeness auto
termination
  by (relation "measure (\<lambda>(g, e, spn, c). nat spn)") auto

declare advance.simps [simp del]

text \<open>The placement of one visible child of weight \<open>spn\<close> at the cursor.\<close>

definition place :: "weightedGridLayout \<Rightarrow> env \<Rightarrow> gofloat \<Rightarrow> gofloat \<Rightarrow> int \<Rightarrow> int \<times> int \<times> int
    \<Rightarrow> CanvasObject \<Rightarrow> CanvasObject" where
  "place g e cellWidth cellHeight spn cur child =
     (case cur of (row, col, i) \<Rightarrow>
        let colSpan = (if horizontal g e then spn else 1);
            rowSpan = (if horizontal g e then 1 else spn);
            x1 = getLeading e cellWidth col;
            y1 = getLeading e cellHeight row;
            x2 = getTrailing e cellWidth (col + colSpan - 1);
            y2 = getTrailing e cellHeight (row + rowSpan - 1)
        in Resize (NewSize (fsub x2 x1) (fsub y2 y1)) (Move (NewPos x1 y1) child))"

text \<open>
  The loop of \<open>Layout\<close> from child number \<open>idx\<close> on; the two \<open>fmt.Println\<close>
  calls of \<open>Layout\<close>, debugging output, are left out. It returns the children as the loop
  leaves them, the cursor, and the panic that stopped it, if one did: what was moved
  before a panic stays moved.
\<close>

fun layoutLoop :: "weightedGridLayout \<Rightarrow> env \<Rightarrow> gofloat \<Rightarrow> gofloat \<Rightarrow> nat \<Rightarrow> int \<times> int \<times> int
    \<Rightarrow> CanvasObject list \<Rightarrow> CanvasObject list \<times> (int \<times> int \<times> int) \<times> panic option" where
  "layoutLoop g e cw ch idx cur [] = ([], cur, None)"
| "layoutLoop g e cw ch idx cur (child # objects) =
     (if \<not> obj_visible child then
        (case layoutLoop g e cw ch (Suc idx) cur objects of
           (objects', cur', p) \<Rightarrow> (child # objects', cur', p))
      else
        (case index_Cols g idx of
           Inl p \<Rightarrow> (child # objects, cur, Some p)
         | Inr spn \<Rightarrow>
             (let child' = place g e cw ch spn cur child in
              case advance g e spn cur of
                Inl p \<Rightarrow> (child' # objects, cur, Some p)
              | Inr cur' \<Rightarrow>
                  (case layoutLoop g e cw ch (Suc idx) cur' objects of
                     (objects', cur'', p) \<Rightarrow> (child' # objects', cur'', p)))))"

definition Layout :: "weightedGridLayout \<Rightarrow> env \<Rightarrow> CanvasObject list \<Rightarrow> Size
    \<Rightarrow> CanvasObject list \<times> panic option" where
  "Layout g e objects sz =
     (case countRows g e objects of
        Inl p \<Rightarrow> (objects, Some p)
      | Inr rows \<Rightarrow>
          (case cellSizes g e rows sz of (cellWidth, cellHeight) \<Rightarrow>
             (case layoutLoop g e cellWidth cellHeight 0 (0, 0, 0) objects of
                (objects', cur, p) \<Rightarrow> (objects', p))))"

text \<open>The loop of \<open>MinSize\<close>, from child number \<open>i\<close> on, with the maximum so far.\<close>

fun minLoop :: "weightedGridLayout \<Rightarrow> nat \<Rightarrow> Size \<Rightarrow> CanvasObject list \<Rightarrow> panic + Size" where
  "minLoop g i minSize [] = Inr minSize"
| "minLoop g i minSize (child # objects) =
     (if \<not> obj_visible child then minLoop g (Suc i) minSize objects
      else
        (case index_Cols g i of
           Inl p \<Rightarrow> Inl p
         | Inr w \<Rightarrow>
             (let childMinSize = obj_minSize child;
                  childMinSize = childMinSize\<lparr>Height := fdiv (Height childMinSize) (float_of_int w)\<rparr>
              in minLoop g (Suc i) (Size_Max minSize childMinSize) objects)))"

definition MinSize :: "weightedGridLayout \<Rightarrow> env \<Rightarrow> CanvasObject list \<Rightarrow> panic + Size" where
  "MinSize g e objects =
     (case countRows g e objects of
        Inl p \<Rightarrow> Inl p
      | Inr rows \<Rightarrow>
          (case minLoop g 0 (NewSize (Fin 0) (Fin 0)) objects of
             Inl p \<Rightarrow> Inl p
           | Inr minSize \<Rightarrow>
               (if horizontal g e then
                  Inr (Size_Add
                    (NewSize (fmul (Width minSize) (float_of_int (TotalCols g)))
                             (fmul (Height minSize) (float_of_int rows)))
                    (NewSize (fmul (Padding e) (Max_f (float_of_int (TotalCols g - 1)) (Fin 0)))
                             (fmul (Padding e) (Max_f (float_of_int (rows - 1)) (Fin 0)))))
                else
                  Inr (Size_Add
                    (NewSize (fmul (Width minSize) (float_of_int rows))
                             (fmul (Height minSize) (float_of_int (TotalCols g))))
                    (NewSize (fmul (Padding e) (Max_f (float_of_int (rows - 1)) (Fin 0)))
                             (fmul (Padding e) (Max_f (float_of_int (TotalCols g - 1)) (Fin 0))))))))"

section \<open>Notions of the specification\<close>

text \<open>\<open>child.Hide()\<close>: the child becomes invisible, nothing else of it changes.\<close>

definition hide :: "CanvasObject \<Rightarrow> CanvasObject" where
  "hide c = c\<lparr>obj_visible := False\<rparr>"

text \<open>A list without its entry number \<open>k\<close>.\<close>

definition omit :: "nat \<Rightarrow> 'a list \<Rightarrow> 'a list" where
  "omit k xs = take k xs @ drop (Suc k) xs"

text \<open>
  The sum of the weights of the visible children, each child paired with the weight of
  its own slot; an invisible child contributes zero.
\<close>

definition visibleWeight :: "int list \<Rightarrow> CanvasObject list \<Rightarrow> int" where
  "visibleWeight ws objects = (\<Sum>(w, c) \<leftarrow> zip ws objects. if obj_visible c then w else 0)"

text \<open>A value that is neither an infinity nor NaN.\<close>

fun finite_float :: "gofloat \<Rightarrow> bool" where
  "finite_float (Fin a) = True"
| "finite_float x = False"

text \<open>
  The minimum size in the words of the specification. The per-unit minimum of a visible
  child is its intrinsic minimum with one dimension divided by its weight;
  \<open>unitMin_crossflow\<close> divides the height in horizontal mode and the width in vertical
  mode, \<open>unitMin_height\<close> divides the height in both modes. \<open>specMinSize\<close> takes the
  per-axis maximum of the per-unit minima (from the empty size on), multiplies by the
  total weight and by the row count \<open>R\<close>, transposed in vertical mode, and adds the
  padding of both axes.
\<close>

definition unitMin_crossflow :: "weightedGridLayout \<Rightarrow> env \<Rightarrow> int \<times> CanvasObject \<Rightarrow> Size" where
  "unitMin_crossflow g e wc =
     (case wc of (w, c) \<Rightarrow>
        if horizontal g e
        then NewSize (Width (obj_minSize c)) (fdiv (Height (obj_minSize c)) (float_of_int w))
        else NewSize (fdiv (Width (obj_minSize c)) (float_of_int w)) (Height (obj_minSize c)))"

definition unitMin_height :: "int \<times> CanvasObject \<Rightarrow> Size" where
  "unitMin_height wc =
     (case wc of (w, c) \<Rightarrow>
        NewSize (Width (obj_minSize c)) (fdiv (Height (obj_minSize c)) (float_of_int w)))"

definition specMinSize :: "weightedGridLayout \<Rightarrow> env \<Rightarrow> int \<Rightarrow> Size list \<Rightarrow> Size" where
  "specMinSize g e R units =
     (let unit = foldl Size_Max (NewSize (Fin 0) (Fin 0)) units;
          padT = fmul (Padding e) (Max_f (float_of_int (TotalCols g - 1)) (Fin 0));
          padR = fmul (Padding e) (Max_f (float_of_int (R - 1)) (Fin 0))
      in if horizontal g e
         then NewSize (fadd (fmul (Width unit) (float_of_int (TotalCols g))) padT)
                      (fadd (fmul (Height unit) (float_of_int R)) padR)
         else NewSize (fadd (fmul (Width unit) (float_of_int R)) padR)
                      (fadd (fmul (Height unit) (float_of_int (TotalCols g))) padT))"

definition visibleSlots :: "weightedGridLayout \<Rightarrow> CanvasObject list \<Rightarrow> (int \<times> CanvasObject) list" where
  "visibleSlots g objects = filter (\<lambda>wc. obj_visible (snd wc)) (zip (Cols g) objects)"

text \<open>Sample inputs: an environment with a finite padding, and a child.\<close>

definition themeEnv :: "rat \<Rightarrow> env" where
  "themeEnv p = \<lparr>Padding = Fin p, deviceHorizontal = True, intOfNonFinite = (\<lambda>x. 0)\<rparr>"

definition sampleChild :: "bool \<Rightarrow> CanvasObject" where
  "sampleChild v =
     \<lparr>obj_visible = v, obj_minSize = NewSize (Fin 10) (Fin 20),
      obj_pos = NewPos (Fin 7) (Fin 7), obj_size = NewSize (Fin 1) (Fin 1)\<rparr>"

section \<open>The button widget\<close>

datatype ButtonImportance = MediumImportance | HighImportance | LowImportance

text \<open>
  The fields of \<open>CMButton\<close> that \<open>Tapped\<close> and \<open>buttonColor\<close> read. \<open>disabled\<close> is
  the flag of the embedded \<open>DisableableWidget\<close>; \<open>OnTapped_set\<close> and \<open>tapAnim_set\<close>
  say whether the callback and the animation are not nil. The colour type is left open.
\<close>

record 'c CMButton =
  disabled :: bool
  Text :: string
  Importance :: ButtonImportance
  ColorEnabled :: 'c
  ColorDisabled :: 'c
  ColorFocused :: 'c
  ColorPrimary :: 'c
  ColorHover :: 'c
  OnTapped_set :: bool
  hovered :: bool
  focused :: bool
  tapAnim_set :: bool

text \<open>What a call does outside the fields of the button, in the order it does it.\<close>

datatype effect = AnimationStop | AnimationStart | WidgetRefresh | OnTappedCall

text \<open>
  Modelled from the spec: \<open>DisableableWidget.Disabled\<close> is not among the sources; it
  reports the disabled state of the widget, the flag that \<open>applyTheme\<close> reads directly.
\<close>

definition Disabled :: "'c CMButton \<Rightarrow> bool" where
  "Disabled b = disabled b"

definition tapAnimation :: "'c CMButton \<Rightarrow> effect list" where
  "tapAnimation b = (if \<not> tapAnim_set b then [] else [AnimationStop, AnimationStart])"

text \<open>\<open>Tapped\<close> on a button and the effects so far; it returns both as it leaves them.\<close>

definition Tapped :: "'c CMButton \<times> effect list \<Rightarrow> 'c CMButton \<times> effect list" where
  "Tapped s =
     (case s of (b, effs) \<Rightarrow>
        if Disabled b then (b, effs)
        else (b, effs @ tapAnimation b @ [WidgetRefresh]
                   @ (if OnTapped_set b then [OnTappedCall] else [])))"

text \<open>
  \<open>buttonColor\<close>; \<open>blendColor\<close>, a helper of the toolkit's button that is not among the
  sources, is a parameter.
\<close>

definition buttonColor :: "('c \<Rightarrow> 'c \<Rightarrow> 'c) \<Rightarrow> 'c CMButton \<Rightarrow> 'c" where
  "buttonColor blendColor b =
     (if Disabled b then ColorDisabled b
      else if focused b then blendColor (ColorEnabled b) (ColorFocused b)
      else if hovered b then
        (let bg = (if Importance b = HighImportance then ColorPrimary b else ColorEnabled b)
         in blendColor bg (ColorHover b))
      else if Importance b = HighImportance then ColorPrimary b
      else ColorEnabled b)"

definition sampleButton :: "bool \<Rightarrow> bool \<Rightarrow> bool \<Rightarrow> ButtonImportance \<Rightarrow> nat CMButton" where
  "sampleButton d f h imp =
     \<lparr>disabled = d, Text = ''OK'', Importance = imp, ColorEnabled = 1, ColorDisabled = 2,
      ColorFocused = 3, ColorPrimary = 4, ColorHover = 5, OnTapped_set = True,
      hovered = h, focused = f, tapAnim_set = True\<rparr>"

section \<open>Evaluation\<close>

lemmas float_defs = float_of_int_def fsub_def inf_of_sign_def

lemmas geom_defs = NewSize_def NewPos_def Move_def Resize_def getLeading_def getTrailing_def

lemmas layout_defs = Layout_def countRows_def cellSizes_def place_def
  index_Cols_def int_Ceil_def horizontal_def Let_def

lemmas ctor_defs = NewWeightedGridLayoutWithColumns_def NewWeightedGridLayoutWithRows_def
  NewAdaptiveWeightedGridLayout_def NewWeightedGridLayout_def

lemmas sample_defs = themeEnv_def sampleChild_def

section \<open>Basic facts\<close>

lemma NewSize_sel [simp]: "Width (NewSize w h) = w" "Height (NewSize w h) = h"
  by (simp_all add: NewSize_def)

lemma visibleWeight_Nil [simp]: "visibleWeight ws [] = 0" "visibleWeight [] objects = 0"
  by (simp_all add: visibleWeight_def)

lemma visibleWeight_Cons [simp]:
  "visibleWeight (w # ws) (c # objects) = (if obj_visible c then w else 0) + visibleWeight ws objects"
  by (simp add: visibleWeight_def)

lemma omit_Cons_0 [simp]: "omit 0 (x # xs) = xs"
  by (simp add: omit_def)

lemma omit_Cons_Suc [simp]: "omit (Suc k) (x # xs) = x # omit k xs"
  by (simp add: omit_def)

lemma omit_update [simp]: "omit k (xs[k := v]) = omit k xs"
  by (simp add: omit_def)

text \<open>
  Go's remainder and the modulus of HOL vanish together, and one unit step moves the
  quotient and the remainder of the flat index as the cursor moves.
\<close>

lemma smod_eq_0_iff: "(a::int) smod b = 0 \<longleftrightarrow> a mod b = 0"
proof -
  have "a smod b = 0 \<longleftrightarrow> b dvd a"
    by (auto simp add: signed_modulo_int_def sgn_if)
  then show ?thesis by (simp add: mod_eq_0_iff_dvd)
qed

lemma unit_step_wrap:
  fixes i T :: int
  assumes "0 < T" and "(i + 1) mod T = 0"
  shows "(i + 1) div T = i div T + 1"
proof -
  from assms(2) have "T dvd i + 1" by (simp add: mod_eq_0_iff_dvd)
  then obtain q where q: "i + 1 = T * q" by (auto simp add: dvd_def)
  then have "i = T * (q - 1) + (T - 1)" by (simp add: algebra_simps)
  then have "i div T = q - 1"
    using assms(1) int_div_pos_eq [of i T "q - 1" "T - 1"] by simp
  moreover have "(i + 1) div T = q"
    using q assms(1) by simp
  ultimately show ?thesis by simp
qed

lemma unit_step_inline:
  fixes i T :: int
  assumes "0 < T" and "(i + 1) mod T \<noteq> 0"
  shows "(i + 1) div T = i div T" and "(i + 1) mod T = i mod T + 1"
proof -
  have r: "0 \<le> i mod T" "i mod T < T" using assms(1) by simp_all
  have ne: "i mod T + 1 \<noteq> T"
  proof
    assume "i mod T + 1 = T"
    then have "(i mod T + 1) mod T = 0" by simp
    then have "(i + 1) mod T = 0" by (simp add: mod_add_left_eq)
    with assms(2) show False by simp
  qed
  have eq: "i + 1 = T * (i div T) + (i mod T + 1)" by simp
  have lt: "i mod T + 1 < T" using r ne by linarith
  show "(i + 1) div T = i div T"
    using int_div_pos_eq [OF eq] r lt by simp
  show "(i + 1) mod T = i mod T + 1"
    using int_mod_pos_eq [OF eq] r lt by simp
qed

section \<open>The row count\<close>

lemma countLoop_visibleWeight:
  "i + length objects \<le> length (Cols g) \<Longrightarrow>
   countLoop g i count objects = Inr (count + visibleWeight (drop i (Cols g)) objects)"
proof (induction objects arbitrary: i count)
  case Nil
  then show ?case by simp
next
  case (Cons c objects)
  from Cons.prems have i: "i < length (Cols g)" and rest: "Suc i + length objects \<le> length (Cols g)"
    by simp_all
  have d: "drop i (Cols g) = Cols g ! i # drop (Suc i) (Cols g)"
    using i by (simp add: Cons_nth_drop_Suc)
  show ?case
    using Cons.IH [OF rest] i by (simp add: d index_Cols_def)
qed

lemma fdiv_ints: "b \<noteq> 0 \<Longrightarrow> fdiv (float_of_int a) (float_of_int b) = Fin (of_int a / of_int b)"
  by (simp add: float_of_int_def)

text \<open>
  Claim C4. For a layout whose total weight is not zero and a child list with one weight
  per child, \<open>countRows\<close> returns, without a panic, the sum of the weights of the visible
  children divided by the total weight and rounded up; in the sum an invisible child
  counts zero.
\<close>

theorem countRows_ceiling:
  assumes "length (Cols g) = length objects" and "TotalCols g \<noteq> 0"
  shows "countRows g e objects =
    Inr \<lceil>(of_int (visibleWeight (Cols g) objects) :: rat) / of_int (TotalCols g)\<rceil>"
  using assms countLoop_visibleWeight [of 0 objects g 0]
  by (simp add: countRows_def int_Ceil_def fdiv_ints)

text \<open>
  An instance: weights 1, 1, 2, 1 (total 5), the second child hidden; the visible weights
  sum to 4 and the row count is 1.
\<close>

theorem countRows_ceiling_witness:
  "countRows (NewWeightedGridLayoutWithColumns [1, 1, 2, 1]) (themeEnv 4)
     [sampleChild True, sampleChild False, sampleChild True, sampleChild True] = Inr 1
   \<and> visibleWeight [1, 1, 2, 1] [sampleChild True, sampleChild False, sampleChild True, sampleChild True] = 4
   \<and> TotalCols (NewWeightedGridLayoutWithColumns [1, 1, 2, 1]) = 5"
  using countRows_ceiling [of "NewWeightedGridLayoutWithColumns [1, 1, 2, 1]"
      "[sampleChild True, sampleChild False, sampleChild True, sampleChild True]" "themeEnv 4"]
  by (simp add: ctor_defs sample_defs ceiling_eq_iff)

section \<open>No visible child\<close>

lemma countLoop_none_visible:
  "\<forall>c \<in> set objects. \<not> obj_visible c \<Longrightarrow> countLoop g i count objects = Inr count"
  by (induction objects arbitrary: i) simp_all

lemma layoutLoop_none_visible:
  "\<forall>c \<in> set objects. \<not> obj_visible c \<Longrightarrow>
   layoutLoop g e cw ch idx cur objects = (objects, cur, None)"
  by (induction objects arbitrary: idx) simp_all

lemma minLoop_none_visible:
  "\<forall>c \<in> set objects. \<not> obj_visible c \<Longrightarrow> minLoop g i minSize objects = Inr minSize"
  by (induction objects arbitrary: i) simp_all

lemma fdiv_zero_not_finite: "\<not> finite_float (fdiv x (Fin 0))"
  by (cases x) simp_all

lemma countRows_none_visible:
  assumes "\<forall>c \<in> set objects. \<not> obj_visible c" and "TotalCols g \<noteq> 0"
  shows "countRows g e objects = Inr 0"
  using assms by (simp add: countRows_def countLoop_none_visible int_Ceil_def float_of_int_def)

text \<open>
  Claim C2, as the specification states it: with no visible child \<open>MinSize\<close> would be
  the empty size, and no division by zero would be performed. With total weight 4 and a
  unit padding of 4, \<open>countRows\<close> returns 0, \<open>MinSize\<close> keeps the padding between the
  columns and is not empty, and \<open>Layout\<close> divides the height by the zero row count:
  its cell height is an infinity.
\<close>

theorem no_visible_child_counterexample:
  "countRows (NewWeightedGridLayoutWithColumns [1, 1, 2]) (themeEnv 4) [sampleChild False, sampleChild False]
     = Inr 0
   \<and> MinSize (NewWeightedGridLayoutWithColumns [1, 1, 2]) (themeEnv 4) [sampleChild False, sampleChild False]
     \<noteq> Inr (NewSize (Fin 0) (Fin 0))
   \<and> cellSizes (NewWeightedGridLayoutWithColumns [1, 1, 2]) (themeEnv 4) 0 (NewSize (Fin 400) (Fin 100))
     = (Fin 97, PInf)"
  by (simp add: float_defs geom_defs layout_defs ctor_defs sample_defs
      MinSize_def Size_Add_def Max_f_def)

text \<open>
  Claim C2, amended. For a layout of positive total weight \<open>T\<close>, a finite unit padding
  \<open>p\<close> and a child list in which no child is visible: \<open>countRows\<close> returns 0;
  \<open>Layout\<close> returns without a panic and leaves every child as it was; \<open>MinSize\<close>
  returns without a panic the padding-only size, \<open>(p \<times> (T - 1), 0)\<close> in horizontal mode
  and \<open>(0, p \<times> (T - 1))\<close> in vertical mode, which is the empty size when the padding is
  zero or the total weight is one. \<open>Layout\<close> does divide by the zero row count: the cell
  size along the flow axis is an infinity or NaN, which Go computes without a fault and
  which no child then uses.
\<close>

theorem no_visible_child:
  assumes none: "\<forall>c \<in> set objects. \<not> obj_visible c"
    and total: "TotalCols g > 0"
    and pad: "Padding e = Fin p"
  shows "countRows g e objects = Inr 0
    \<and> Layout g e objects sz = (objects, None)
    \<and> MinSize g e objects =
        Inr (if horizontal g e
             then NewSize (Fin (p * of_int (TotalCols g - 1))) (Fin 0)
             else NewSize (Fin 0) (Fin (p * of_int (TotalCols g - 1))))
    \<and> \<not> finite_float (if horizontal g e then snd (cellSizes g e 0 sz) else fst (cellSizes g e 0 sz))"
proof -
  have rows: "countRows g e objects = Inr 0"
    using none total by (simp add: countRows_none_visible)
  have lay: "Layout g e objects sz = (objects, None)"
    by (simp add: Layout_def rows layoutLoop_none_visible [OF none] split: prod.splits)
  have mx: "Max_f (float_of_int (TotalCols g - 1)) (Fin 0) = Fin (of_int (TotalCols g - 1))"
    using total by (auto simp add: Max_f_def float_of_int_def)
  have mn: "MinSize g e objects =
        Inr (if horizontal g e
             then NewSize (Fin (p * of_int (TotalCols g - 1))) (Fin 0)
             else NewSize (Fin 0) (Fin (p * of_int (TotalCols g - 1))))"
    using mx
    by (simp add: MinSize_def rows minLoop_none_visible [OF none] pad Size_Add_def NewSize_def
        Max_f_def float_of_int_def)
  have dz: "\<not> finite_float (if horizontal g e then snd (cellSizes g e 0 sz) else fst (cellSizes g e 0 sz))"
    using fdiv_zero_not_finite by (simp add: cellSizes_def Let_def float_of_int_def)
  show ?thesis using rows lay mn dz by blast
qed

text \<open>An instance: weights 1, 1, 2, padding 4, two hidden children.\<close>

theorem no_visible_child_witness:
  "countRows (NewWeightedGridLayoutWithColumns [1, 1, 2]) (themeEnv 4) [sampleChild False, sampleChild False] = Inr 0
   \<and> Layout (NewWeightedGridLayoutWithColumns [1, 1, 2]) (themeEnv 4) [sampleChild False, sampleChild False]
        (NewSize (Fin 400) (Fin 100)) = ([sampleChild False, sampleChild False], None)
   \<and> MinSize (NewWeightedGridLayoutWithColumns [1, 1, 2]) (themeEnv 4) [sampleChild False, sampleChild False]
       = Inr (NewSize (Fin 12) (Fin 0))"
  using no_visible_child [of "[sampleChild False, sampleChild False]"
      "NewWeightedGridLayoutWithColumns [1, 1, 2]" "themeEnv 4" 4 "NewSize (Fin 400) (Fin 100)"]
  by (simp add: ctor_defs sample_defs horizontal_def)

section \<open>The two scenarios of the specification\<close>

text \<open>
  Claim C7. A layout built by \<open>NewWeightedGridLayoutWithColumns [1, 1, 2]\<close> is horizontal
  and has total weight 4. With three visible children, a container of 400 by 100 and a
  unit padding of zero, \<open>countRows\<close> returns 1 and \<open>Layout\<close> returns without a panic,
  having placed child 0 at x = 0 with width 100, child 1 at x = 100 with width 100 and
  child 2, of span 2, at x = 200 with width 200: the intervals [0,100), [100,200) and
  [200,400). Each child is at y = 0 and 100 high.
\<close>

theorem scenario_columns_1_1_2:
  fixes e :: env and c0 c1 c2 :: CanvasObject
  defines "g \<equiv> NewWeightedGridLayoutWithColumns [1, 1, 2]"
  defines "e0 \<equiv> e\<lparr>Padding := Fin 0\<rparr>"
  defines "objects \<equiv>
    [c0\<lparr>obj_visible := True\<rparr>, c1\<lparr>obj_visible := True\<rparr>, c2\<lparr>obj_visible := True\<rparr>]"
  shows "TotalCols g = 4 \<and> horizontal g e0 \<and> countRows g e0 objects = Inr 1 \<and>
    Layout g e0 objects (NewSize (Fin 400) (Fin 100)) =
      ([c0\<lparr>obj_visible := True, obj_pos := NewPos (Fin 0) (Fin 0),
            obj_size := NewSize (Fin 100) (Fin 100)\<rparr>,
        c1\<lparr>obj_visible := True, obj_pos := NewPos (Fin 100) (Fin 0),
            obj_size := NewSize (Fin 100) (Fin 100)\<rparr>,
        c2\<lparr>obj_visible := True, obj_pos := NewPos (Fin 200) (Fin 0),
            obj_size := NewSize (Fin 200) (Fin 100)\<rparr>], None)"
  unfolding g_def e0_def objects_def
  by (simp add: float_defs geom_defs layout_defs ctor_defs advance.simps
      signed_modulo_int_def)

text \<open>
  Claim C1, as the specification states it: with \<open>NewWeightedGridLayoutWithRows [1, 2, 1]\<close>,
  three visible children, a container of 100 by 300 and no padding, the children would be
  100, 200 and 100 high. The heights that \<open>Layout\<close> sets are not these: the container
  is 300 high and the total weight is 4.
\<close>

theorem scenario_rows_1_2_1_heights_counterexample:
  "map (\<lambda>c. Height (obj_size c))
     (fst (Layout (NewWeightedGridLayoutWithRows [1, 2, 1]) (themeEnv 0)
        [sampleChild True, sampleChild True, sampleChild True] (NewSize (Fin 100) (Fin 300))))
   \<noteq> [Fin 100, Fin 200, Fin 100]"
  by (simp add: float_defs geom_defs layout_defs ctor_defs sample_defs advance.simps
      signed_modulo_int_def)

text \<open>
  Claim C1, amended. A layout built by \<open>NewWeightedGridLayoutWithRows [1, 2, 1]\<close> is
  vertical and has total weight 4. With three visible children, a container of 100 by 300
  and a unit padding of zero, the unit height is 300 / 4 = 75: \<open>Layout\<close> resizes child 0
  to height 75, child 1 (weight 2, spanning two units) to height 150 and child 2 to
  height 75, each child 100 wide, at y = 0, 75 and 225.
\<close>

theorem scenario_rows_1_2_1:
  fixes e :: env and c0 c1 c2 :: CanvasObject
  defines "g \<equiv> NewWeightedGridLayoutWithRows [1, 2, 1]"
  defines "e0 \<equiv> e\<lparr>Padding := Fin 0\<rparr>"
  defines "objects \<equiv>
    [c0\<lparr>obj_visible := True\<rparr>, c1\<lparr>obj_visible := True\<rparr>, c2\<lparr>obj_visible := True\<rparr>]"
  shows "TotalCols g = 4 \<and> \<not> horizontal g e0 \<and> countRows g e0 objects = Inr 1 \<and>
    Layout g e0 objects (NewSize (Fin 100) (Fin 300)) =
      ([c0\<lparr>obj_visible := True, obj_pos := NewPos (Fin 0) (Fin 0),
            obj_size := NewSize (Fin 100) (Fin 75)\<rparr>,
        c1\<lparr>obj_visible := True, obj_pos := NewPos (Fin 0) (Fin 75),
            obj_size := NewSize (Fin 100) (Fin 150)\<rparr>,
        c2\<lparr>obj_visible := True, obj_pos := NewPos (Fin 0) (Fin 225),
            obj_size := NewSize (Fin 100) (Fin 75)\<rparr>], None)"
  unfolding g_def e0_def objects_def
  by (simp add: float_defs geom_defs layout_defs ctor_defs advance.simps
      signed_modulo_int_def)

section \<open>A hidden child and an omitted child\<close>

lemma index_Cols_omit_before:
  "j < k \<Longrightarrow> index_Cols (g\<lparr>Cols := omit k (Cols g)\<rparr>) j = index_Cols g j"
  by (auto simp add: index_Cols_def omit_def nth_append)

lemma index_Cols_omit_after:
  "k \<le> j \<Longrightarrow> index_Cols (g\<lparr>Cols := omit k (Cols g)\<rparr>) j = index_Cols g (Suc j)"
  by (auto simp add: index_Cols_def omit_def nth_append min_def)

text \<open>Two layouts that agree on the weights a loop reads run the same loop.\<close>

lemma advance_cong:
  "TotalCols g' = TotalCols g \<Longrightarrow> horizontal g' e = horizontal g e \<Longrightarrow>
   advance g' e spn cur = advance g e spn cur"
proof (induction g e spn cur rule: advance.induct)
  case (1 g e spn row col i)
  show ?case
    using 1 by (subst (1 2) advance.simps) (simp add: "1.prems")
qed

lemma place_cong:
  "horizontal g' e = horizontal g e \<Longrightarrow> place g' e cw ch spn cur c = place g e cw ch spn cur c"
  by (simp add: place_def)

lemma countLoop_cong:
  "\<forall>j < length objects. index_Cols g' (i' + j) = index_Cols g (i + j) \<Longrightarrow>
   countLoop g' i' count objects = countLoop g i count objects"
proof (induction objects arbitrary: i i' count)
  case Nil
  then show ?case by simp
next
  case (Cons c objects)
  have here: "index_Cols g' i' = index_Cols g i"
    using Cons.prems by fastforce
  have rest: "\<forall>j < length objects. index_Cols g' (Suc i' + j) = index_Cols g (Suc i + j)"
    using Cons.prems by fastforce
  show ?case
    by (simp add: here Cons.IH [OF rest] split: sum.splits)
qed

lemma layoutLoop_cong:
  assumes "TotalCols g' = TotalCols g" and "horizontal g' e = horizontal g e"
  shows "\<forall>j < length objects. index_Cols g' (i' + j) = index_Cols g (i + j) \<Longrightarrow>
   layoutLoop g' e cw ch i' cur objects = layoutLoop g e cw ch i cur objects"
proof (induction objects arbitrary: i i' cur)
  case Nil
  then show ?case by simp
next
  case (Cons c objects)
  have here: "index_Cols g' i' = index_Cols g i"
    using Cons.prems by fastforce
  have rest: "\<forall>j < length objects. index_Cols g' (Suc i' + j) = index_Cols g (Suc i + j)"
    using Cons.prems by fastforce
  show ?case
    by (simp add: here Cons.IH [OF rest] advance_cong [OF assms] place_cong [OF assms(2)]
        Let_def split: sum.splits)
qed

text \<open>
  The loops on a list whose child number \<open>k\<close> is hidden, against the loops on the list
  without that child, run by a layout \<open>g'\<close> whose weights are those of \<open>g\<close> with the
  weight of slot \<open>k\<close> left out.
\<close>

lemma countLoop_hide_omit:
  assumes "k < length objects"
    and "\<forall>j < k. index_Cols g' (i' + j) = index_Cols g (i + j)"
    and "\<forall>j \<ge> k. index_Cols g' (i' + j) = index_Cols g (Suc (i + j))"
  shows "countLoop g' i' count (omit k objects)
       = countLoop g i count (objects[k := hide (objects ! k)])"
  using assms
proof (induction objects arbitrary: k i i' count)
  case Nil
  then show ?case by simp
next
  case (Cons c objects)
  show ?case
  proof (cases k)
    case 0
    have "\<forall>j < length objects. index_Cols g' (i' + j) = index_Cols g (Suc i + j)"
      using Cons.prems(3) 0 by simp
    then have "countLoop g' i' count objects = countLoop g (Suc i) count objects"
      by (rule countLoop_cong)
    then show ?thesis using 0 by (simp add: hide_def)
  next
    case (Suc k')
    have here: "index_Cols g' i' = index_Cols g i"
      using Cons.prems(2) Suc by fastforce
    have k': "k' < length objects" using Cons.prems(1) Suc by simp
    have before: "\<forall>j < k'. index_Cols g' (Suc i' + j) = index_Cols g (Suc i + j)"
      using Cons.prems(2) Suc by fastforce
    have after: "\<forall>j \<ge> k'. index_Cols g' (Suc i' + j) = index_Cols g (Suc (Suc i + j))"
      using Cons.prems(3) Suc by fastforce
    show ?thesis
      using Suc by (simp add: here Cons.IH [OF k' before after] split: sum.splits)
  qed
qed

lemma layoutLoop_hide_omit:
  assumes tot: "TotalCols g' = TotalCols g" and hz: "horizontal g' e = horizontal g e"
  shows "k < length objects \<Longrightarrow>
    \<forall>j < k. index_Cols g' (i' + j) = index_Cols g (i + j) \<Longrightarrow>
    \<forall>j \<ge> k. index_Cols g' (i' + j) = index_Cols g (Suc (i + j)) \<Longrightarrow>
    layoutLoop g' e cw ch i' cur (omit k objects)
      = (case layoutLoop g e cw ch i cur (objects[k := hide (objects ! k)]) of
           (objects', cur', p) \<Rightarrow> (omit k objects', cur', p))"
proof (induction objects arbitrary: k i i' cur)
  case Nil
  then show ?case by simp
next
  case (Cons c objects)
  show ?case
  proof (cases k)
    case 0
    have "\<forall>j < length objects. index_Cols g' (i' + j) = index_Cols g (Suc i + j)"
      using Cons.prems(3) 0 by simp
    then have "layoutLoop g' e cw ch i' cur objects = layoutLoop g e cw ch (Suc i) cur objects"
      by (rule layoutLoop_cong [OF tot hz])
    then show ?thesis using 0 by (simp add: hide_def split: prod.splits)
  next
    case (Suc k')
    have here: "index_Cols g' i' = index_Cols g i"
      using Cons.prems(2) Suc by fastforce
    have k': "k' < length objects" using Cons.prems(1) Suc by simp
    have before: "\<forall>j < k'. index_Cols g' (Suc i' + j) = index_Cols g (Suc i + j)"
      using Cons.prems(2) Suc by fastforce
    have after: "\<forall>j \<ge> k'. index_Cols g' (Suc i' + j) = index_Cols g (Suc (Suc i + j))"
      using Cons.prems(3) Suc by fastforce
    show ?thesis
      using Suc
      by (simp add: here Cons.IH [OF k' before after] advance_cong [OF tot hz]
          place_cong [OF hz] Let_def split: sum.splits prod.splits)
  qed
qed

text \<open>
  Claim C3, as the specification states it: hiding a child would place the other
  children as omitting it from the child list does. The weights belong to the slots of
  the child list, so the children after an omitted child take the weights of the slots
  before theirs: with weights 1, 2, 1 and the first child hidden, the other two are 200
  and 100 wide; with the first child omitted they are 100 and 200 wide.
\<close>

theorem hide_is_not_omit_counterexample:
  "omit 0 (fst (Layout (NewWeightedGridLayoutWithColumns [1, 2, 1]) (themeEnv 0)
        [hide (sampleChild True), sampleChild True, sampleChild True] (NewSize (Fin 400) (Fin 100))))
   \<noteq> fst (Layout (NewWeightedGridLayoutWithColumns [1, 2, 1]) (themeEnv 0)
        (omit 0 [sampleChild True, sampleChild True, sampleChild True]) (NewSize (Fin 400) (Fin 100)))"
  by (simp add: float_defs geom_defs layout_defs ctor_defs sample_defs advance.simps
      signed_modulo_int_def hide_def omit_def)

text \<open>
  Claim C3, amended. For every layout, container size and child list, hiding child
  number \<open>k\<close> and running \<open>Layout\<close> leaves every other child exactly as \<open>Layout\<close>
  leaves it on the child list without child \<open>k\<close>, when the weight of slot \<open>k\<close> is
  omitted from the weights too (the total weight stays as constructed); the two runs also
  panic or return alike.
\<close>

theorem hide_is_omit_with_weight:
  assumes "k < length objects"
  shows "Layout (g\<lparr>Cols := omit k (Cols g)\<rparr>) e (omit k objects) sz
       = (case Layout g e (objects[k := hide (objects ! k)]) sz of
            (objects', p) \<Rightarrow> (omit k objects', p))"
proof -
  let ?g' = "g\<lparr>Cols := omit k (Cols g)\<rparr>"
  let ?hidden = "objects[k := hide (objects ! k)]"
  have tot: "TotalCols ?g' = TotalCols g" by simp
  have hz: "horizontal ?g' e = horizontal g e" by (simp add: horizontal_def)
  have before: "\<forall>j < k. index_Cols ?g' (0 + j) = index_Cols g (0 + j)"
    by (simp add: index_Cols_omit_before)
  have after: "\<forall>j \<ge> k. index_Cols ?g' (0 + j) = index_Cols g (Suc (0 + j))"
    by (simp add: index_Cols_omit_after)
  have count: "countLoop ?g' 0 0 (omit k objects) = countLoop g 0 0 ?hidden"
    by (rule countLoop_hide_omit [OF assms before after])
  have rows: "countRows ?g' e (omit k objects) = countRows g e ?hidden"
    by (simp add: countRows_def count split: sum.splits)
  have cells: "cellSizes ?g' e rows sz = cellSizes g e rows sz" for rows
    by (simp add: cellSizes_def hz Let_def)
  have loop: "layoutLoop ?g' e cw ch 0 (0, 0, 0) (omit k objects)
      = (case layoutLoop g e cw ch 0 (0, 0, 0) ?hidden of
           (objects', cur', p) \<Rightarrow> (omit k objects', cur', p))" for cw ch
    by (rule layoutLoop_hide_omit [OF tot hz assms before after])
  show ?thesis
    by (simp add: Layout_def rows cells loop split: sum.splits prod.splits)
qed

text \<open>An instance: weights 1, 2, 1 and the first of three children hidden.\<close>

theorem hide_is_omit_with_weight_witness:
  "Layout (NewWeightedGridLayoutWithColumns [1, 2, 1]\<lparr>Cols := [2, 1]\<rparr>) (themeEnv 0)
      [sampleChild True, sampleChild True] (NewSize (Fin 400) (Fin 100))
   = (omit 0 (fst (Layout (NewWeightedGridLayoutWithColumns [1, 2, 1]) (themeEnv 0)
        [sampleChild False, sampleChild True, sampleChild True] (NewSize (Fin 400) (Fin 100)))),
      None)"
  using hide_is_omit_with_weight [of 0 "[sampleChild True, sampleChild True, sampleChild True]"
      "NewWeightedGridLayoutWithColumns [1, 2, 1]" "themeEnv 0" "NewSize (Fin 400) (Fin 100)"]
  by (simp add: float_defs geom_defs layout_defs ctor_defs sample_defs advance.simps
      signed_modulo_int_def hide_def omit_def)

section \<open>Invisible children\<close>

text \<open>
  The loop of \<open>Layout\<close> on a list runs on a front part of it first: the cursor after
  the first \<open>k\<close> children is the cursor at which child number \<open>k\<close> is reached.
\<close>

lemma layoutLoop_length: "length (fst (layoutLoop g e cw ch idx cur objects)) = length objects"
  by (induction objects arbitrary: idx cur) (simp_all add: Let_def case_prod_beta split: sum.splits)

lemma layoutLoop_invisible:
  "k < length objects \<Longrightarrow> \<not> obj_visible (objects ! k) \<Longrightarrow>
   fst (layoutLoop g e cw ch idx cur objects) ! k = objects ! k"
proof (induction objects arbitrary: idx cur k)
  case Nil
  then show ?case by simp
next
  case (Cons c objects)
  show ?case
  proof (cases k)
    case 0
    then show ?thesis using Cons.prems by (simp add: case_prod_beta)
  next
    case (Suc k')
    then show ?thesis
      using Cons.prems Cons.IH [of k']
      by (simp add: Let_def case_prod_beta split: sum.splits)
  qed
qed

lemma layoutLoop_append:
  "layoutLoop g e cw ch idx cur (xs @ ys) =
    (case layoutLoop g e cw ch idx cur xs of
       (xs', cur', Some p) \<Rightarrow> (xs' @ ys, cur', Some p)
     | (xs', cur', None) \<Rightarrow>
         (case layoutLoop g e cw ch (idx + length xs) cur' ys of
            (ys', cur'', q) \<Rightarrow> (xs' @ ys', cur'', q)))"
  by (induction xs arbitrary: idx cur)
    (simp_all add: Let_def split: sum.splits prod.splits option.splits)

lemma layoutLoop_skip_invisible:
  assumes "k < length objects" and "\<not> obj_visible (objects ! k)"
  shows "snd (layoutLoop g e cw ch 0 (0, 0, 0) (take (Suc k) objects))
       = snd (layoutLoop g e cw ch 0 (0, 0, 0) (take k objects))"
proof -
  have "take (Suc k) objects = take k objects @ [objects ! k]"
    using assms(1) by (simp add: take_Suc_conv_app_nth)
  then show ?thesis
    using assms(2) by (simp add: layoutLoop_append split: prod.splits option.splits)
qed

text \<open>
  Claim C6. For every layout, container size and child list, \<open>Layout\<close> returns an
  invisible child as it was given, its position and size untouched (no \<open>Move\<close>, no
  \<open>Resize\<close>), and the loop passes an invisible child without advancing: the cursor
  \<open>(row, col, i)\<close> after child number \<open>k\<close> is the cursor before it.
\<close>

theorem invisible_untouched:
  assumes "k < length objects" and "\<not> obj_visible (objects ! k)"
  shows "length (fst (Layout g e objects sz)) = length objects
     \<and> fst (Layout g e objects sz) ! k = objects ! k
     \<and> snd (layoutLoop g e cw ch 0 (0, 0, 0) (take (Suc k) objects))
       = snd (layoutLoop g e cw ch 0 (0, 0, 0) (take k objects))"
proof -
  have len: "length (fst (Layout g e objects sz)) = length objects"
    by (simp add: Layout_def layoutLoop_length case_prod_beta split: sum.splits)
  have same: "fst (Layout g e objects sz) ! k = objects ! k"
    by (simp add: Layout_def layoutLoop_invisible [OF assms] case_prod_beta split: sum.splits)
  show ?thesis
    using len same layoutLoop_skip_invisible [OF assms] by blast
qed

text \<open>An instance: the second of three children is hidden.\<close>

theorem invisible_untouched_witness:
  "fst (Layout (NewWeightedGridLayoutWithColumns [1, 1, 2]) (themeEnv 0)
      [sampleChild True, sampleChild False, sampleChild True] (NewSize (Fin 400) (Fin 100))) ! 1
     = sampleChild False
   \<and> snd (layoutLoop (NewWeightedGridLayoutWithColumns [1, 1, 2]) (themeEnv 0) (Fin 100) (Fin 100)
        0 (0, 0, 0) (take 2 [sampleChild True, sampleChild False, sampleChild True]))
     = ((0, 1, 1), None)"
  using invisible_untouched [of 1 "[sampleChild True, sampleChild False, sampleChild True]"
      "NewWeightedGridLayoutWithColumns [1, 1, 2]" "themeEnv 0" "NewSize (Fin 400) (Fin 100)"
      "Fin 100" "Fin 100"]
  by (simp add: float_defs geom_defs layout_defs ctor_defs sample_defs advance.simps
      signed_modulo_int_def)

section \<open>The cursor\<close>

lemma advance_horizontal:
  "horizontal g e \<Longrightarrow> 0 < TotalCols g \<Longrightarrow> 0 \<le> spn \<Longrightarrow>
   row = i div TotalCols g \<Longrightarrow> col = i mod TotalCols g \<Longrightarrow>
   advance g e spn (row, col, i)
     = Inr ((i + spn) div TotalCols g, (i + spn) mod TotalCols g, i + spn)"
proof (induction g e spn "(row, col, i)" arbitrary: row col i rule: advance.induct)
  case (1 g e spn row col i)
  show ?case
  proof (cases "spn > 0")
    case False
    with "1.prems" have "spn = 0" by simp
    then show ?thesis using "1.prems" by (simp add: advance.simps)
  next
    case True
    have nz: "TotalCols g \<noteq> 0" using "1.prems" by simp
    have rest: "0 \<le> spn - 1" using True by simp
    show ?thesis
    proof (cases "(i + 1) smod TotalCols g = 0")
      case wrap: True
      then have m: "(i + 1) mod TotalCols g = 0" by (simp add: smod_eq_0_iff)
      have d: "row + 1 = (i + 1) div TotalCols g"
        using unit_step_wrap [OF "1.prems"(2) m] "1.prems"(4) by simp
      have step: "advance g e (spn - 1) (row + 1, 0, i + 1)
          = Inr ((i + 1 + (spn - 1)) div TotalCols g, (i + 1 + (spn - 1)) mod TotalCols g,
                 i + 1 + (spn - 1))"
        using "1.hyps"(1) [OF True nz "1.prems"(1) wrap "1.prems"(1,2) rest d] m by simp
      show ?thesis
        using True nz "1.prems"(1) wrap step by (subst advance.simps) simp
    next
      case inline: False
      then have m: "(i + 1) mod TotalCols g \<noteq> 0" by (simp add: smod_eq_0_iff)
      have d: "row = (i + 1) div TotalCols g"
        using unit_step_inline(1) [OF "1.prems"(2) m] "1.prems"(4) by simp
      have c: "col + 1 = (i + 1) mod TotalCols g"
        using unit_step_inline(2) [OF "1.prems"(2) m] "1.prems"(5) by simp
      have step: "advance g e (spn - 1) (row, col + 1, i + 1)
          = Inr ((i + 1 + (spn - 1)) div TotalCols g, (i + 1 + (spn - 1)) mod TotalCols g,
                 i + 1 + (spn - 1))"
        using "1.hyps"(2) [OF True nz "1.prems"(1) inline "1.prems"(1,2) rest d c] by simp
      show ?thesis
        using True nz "1.prems"(1) inline step by (subst advance.simps) simp
    qed
  qed
qed

lemma layoutLoop_cursor:
  assumes hz: "horizontal g e" and tot: "0 < TotalCols g"
    and pos: "\<forall>w \<in> set (Cols g). 0 \<le> w"
  shows "idx + length objects \<le> length (Cols g) \<Longrightarrow>
    snd (layoutLoop g e cw ch idx (i div TotalCols g, i mod TotalCols g, i) objects)
     = (((i + visibleWeight (drop idx (Cols g)) objects) div TotalCols g,
         (i + visibleWeight (drop idx (Cols g)) objects) mod TotalCols g,
         i + visibleWeight (drop idx (Cols g)) objects), None)"
proof (induction objects arbitrary: idx i)
  case Nil
  then show ?case by simp
next
  case (Cons c objects)
  from Cons.prems have idx: "idx < length (Cols g)"
    and rest: "Suc idx + length objects \<le> length (Cols g)" by simp_all
  have d: "drop idx (Cols g) = Cols g ! idx # drop (Suc idx) (Cols g)"
    using idx by (simp add: Cons_nth_drop_Suc)
  have w: "0 \<le> Cols g ! idx" using pos idx by simp
  have adv: "advance g e (Cols g ! idx) (i div TotalCols g, i mod TotalCols g, i)
     = Inr ((i + Cols g ! idx) div TotalCols g, (i + Cols g ! idx) mod TotalCols g, i + Cols g ! idx)"
    by (rule advance_horizontal [OF hz tot w refl refl])
  show ?case
    using idx by (simp add: d index_Cols_def adv Cons.IH [OF rest] Let_def case_prod_beta add.assoc)
qed

text \<open>
  Claim C8. In horizontal mode, for a layout of positive total weight \<open>T\<close> whose weights
  are not negative and a child list with no more children than weights: when the loop of
  \<open>Layout\<close> reaches child number \<open>k\<close>, no panic has occurred, the flat index \<open>i\<close> is
  the sum of the weights of the visible children before it, and the cursor is
  \<open>row = i div T\<close>, \<open>col = i mod T\<close>. The advance loop of a child of weight \<open>w\<close>
  takes a cursor of this form at \<open>i\<close> to the cursor of this form at \<open>i + w\<close>, also
  when the steps cross the end of a line.
\<close>

theorem cursor_invariant:
  assumes "horizontal g e" and "0 < TotalCols g" and "\<forall>w \<in> set (Cols g). 0 \<le> w"
    and "length objects \<le> length (Cols g)"
  shows "snd (layoutLoop g e cw ch 0 (0, 0, 0) (take k objects))
        = ((visibleWeight (Cols g) (take k objects) div TotalCols g,
            visibleWeight (Cols g) (take k objects) mod TotalCols g,
            visibleWeight (Cols g) (take k objects)), None)
    \<and> (0 \<le> w \<longrightarrow>
        advance g e w (i div TotalCols g, i mod TotalCols g, i)
          = Inr ((i + w) div TotalCols g, (i + w) mod TotalCols g, i + w))"
proof -
  have len: "0 + length (take k objects) \<le> length (Cols g)"
    using assms(4) by simp
  have "snd (layoutLoop g e cw ch 0 (0 div TotalCols g, 0 mod TotalCols g, 0) (take k objects))
        = (((0 + visibleWeight (drop 0 (Cols g)) (take k objects)) div TotalCols g,
            (0 + visibleWeight (drop 0 (Cols g)) (take k objects)) mod TotalCols g,
            0 + visibleWeight (drop 0 (Cols g)) (take k objects)), None)"
    by (rule layoutLoop_cursor [OF assms(1-3) len])
  then have loop: "snd (layoutLoop g e cw ch 0 (0, 0, 0) (take k objects))
        = ((visibleWeight (Cols g) (take k objects) div TotalCols g,
            visibleWeight (Cols g) (take k objects) mod TotalCols g,
            visibleWeight (Cols g) (take k objects)), None)"
    by simp
  show ?thesis
    using loop advance_horizontal [OF assms(1,2) _ refl refl] by blast
qed

text \<open>
  An instance: weights 1, 1, 2; the third child is reached at flat index 2, and three unit
  steps from there cross the end of the line.
\<close>

theorem cursor_invariant_witness:
  "snd (layoutLoop (NewWeightedGridLayoutWithColumns [1, 1, 2]) (themeEnv 0) (Fin 100) (Fin 100)
        0 (0, 0, 0) (take 2 [sampleChild True, sampleChild True, sampleChild True]))
     = ((0, 2, 2), None)
   \<and> advance (NewWeightedGridLayoutWithColumns [1, 1, 2]) (themeEnv 0) 3 (0, 2, 2)
     = Inr (1, 1, 5)"
  using cursor_invariant [of "NewWeightedGridLayoutWithColumns [1, 1, 2]" "themeEnv 0"
      "[sampleChild True, sampleChild True, sampleChild True]" "Fin 100" "Fin 100" 2 3 2]
  by (simp add: ctor_defs sample_defs horizontal_def)

section \<open>The minimum size\<close>

lemma countLoop_beyond_Cols:
  "length (Cols g) \<le> i \<Longrightarrow> countLoop g i count objects = Inr r \<Longrightarrow>
   minLoop g i m objects = Inr m"
  by (induction objects arbitrary: i) (auto simp add: index_Cols_def split: if_splits)

lemma minLoop_fold:
  "countLoop g i count objects = Inr r \<Longrightarrow>
   minLoop g i m objects =
     Inr (foldl Size_Max m (map unitMin_height
       (filter (\<lambda>wc. obj_visible (snd wc)) (zip (drop i (Cols g)) objects))))"
proof (induction objects arbitrary: i count m)
  case Nil
  then show ?case by simp
next
  case (Cons c objects)
  show ?case
  proof (cases "i < length (Cols g)")
    case True
    then have d: "drop i (Cols g) = Cols g ! i # drop (Suc i) (Cols g)"
      by (simp add: Cons_nth_drop_Suc)
    have u: "(obj_minSize c)\<lparr>Height := fdiv (Height (obj_minSize c)) (float_of_int (Cols g ! i))\<rparr>
        = unitMin_height (Cols g ! i, c)"
      by (simp add: unitMin_height_def NewSize_def)
    show ?thesis
    proof (cases "obj_visible c")
      case vis: True
      with Cons.prems True have "countLoop g (Suc i) (count + Cols g ! i) objects = Inr r"
        by (simp add: index_Cols_def)
      from Cons.IH [OF this] vis True show ?thesis
        by (simp add: d index_Cols_def u Let_def)
    next
      case inv: False
      with Cons.prems have "countLoop g (Suc i) count objects = Inr r" by simp
      from Cons.IH [OF this] inv show ?thesis by (simp add: d)
    qed
  next
    case False
    then have "length (Cols g) \<le> i" by simp
    from countLoop_beyond_Cols [OF this Cons.prems] False show ?thesis by simp
  qed
qed

text \<open>
  Claim C5, as the specification states it: the dimension divided by the weight would be
  the height in horizontal mode and the width in vertical mode. In vertical mode, with
  one child of weight 2 and intrinsic minimum 10 by 20, \<open>MinSize\<close> returns 10 by 20 (the
  height was divided); dividing the width gives 5 by 40.
\<close>

theorem MinSize_crossflow_counterexample:
  "countRows (NewWeightedGridLayoutWithRows [2]) (themeEnv 0) [sampleChild True] = Inr 1
   \<and> MinSize (NewWeightedGridLayoutWithRows [2]) (themeEnv 0) [sampleChild True]
     = Inr (NewSize (Fin 10) (Fin 20))
   \<and> MinSize (NewWeightedGridLayoutWithRows [2]) (themeEnv 0) [sampleChild True]
     \<noteq> Inr (specMinSize (NewWeightedGridLayoutWithRows [2]) (themeEnv 0) 1
          (map (unitMin_crossflow (NewWeightedGridLayoutWithRows [2]) (themeEnv 0))
            (visibleSlots (NewWeightedGridLayoutWithRows [2]) [sampleChild True])))
   \<and> specMinSize (NewWeightedGridLayoutWithRows [2]) (themeEnv 0) 1
        (map (unitMin_crossflow (NewWeightedGridLayoutWithRows [2]) (themeEnv 0))
          (visibleSlots (NewWeightedGridLayoutWithRows [2]) [sampleChild True]))
     = NewSize (Fin 5) (Fin 40)"
  by (simp add: float_defs geom_defs layout_defs ctor_defs sample_defs specMinSize_def
      visibleSlots_def unitMin_crossflow_def MinSize_def Size_Max_def Size_Add_def Max_f_def)

text \<open>
  Claim C5, amended. For every layout and child list on which \<open>countRows\<close> returns a
  row count \<open>R\<close>, \<open>MinSize\<close> returns without a panic: it divides the height of each
  visible child's intrinsic minimum by that child's weight, in horizontal and in vertical
  mode alike, takes the per-axis maximum over the visible children, multiplies the
  per-unit width by the total weight and the per-unit height by \<open>R\<close> (transposed in
  vertical mode), and adds the padding \<open>unitPadding \<times> max(totalWeight - 1, 0)\<close> and
  \<open>unitPadding \<times> max(R - 1, 0)\<close> on the respective axes.
\<close>

theorem MinSize_formula:
  assumes "countRows g e objects = Inr R"
  shows "MinSize g e objects
       = Inr (specMinSize g e R (map unitMin_height (visibleSlots g objects)))"
proof -
  from assms obtain r where r: "countLoop g 0 0 objects = Inr r"
    by (auto simp add: countRows_def split: sum.splits)
  have loop: "minLoop g 0 (NewSize (Fin 0) (Fin 0)) objects =
     Inr (foldl Size_Max (NewSize (Fin 0) (Fin 0)) (map unitMin_height (visibleSlots g objects)))"
    using minLoop_fold [OF r, of "NewSize (Fin 0) (Fin 0)"] by (simp add: visibleSlots_def)
  show ?thesis
    by (simp add: MinSize_def assms loop specMinSize_def Size_Add_def Let_def)
qed

text \<open>An instance: weights 1, 2, padding 4, two visible children of minimum 10 by 20.\<close>

theorem MinSize_formula_witness:
  "countRows (NewWeightedGridLayoutWithColumns [1, 2]) (themeEnv 4) [sampleChild True, sampleChild True] = Inr 1
   \<and> MinSize (NewWeightedGridLayoutWithColumns [1, 2]) (themeEnv 4) [sampleChild True, sampleChild True]
     = Inr (NewSize (Fin 38) (Fin 20))"
  using MinSize_formula [of "NewWeightedGridLayoutWithColumns [1, 2]" "themeEnv 4"
      "[sampleChild True, sampleChild True]" 1]
  by (simp add: float_defs geom_defs layout_defs ctor_defs sample_defs specMinSize_def
      visibleSlots_def unitMin_height_def Size_Max_def Max_f_def)

section \<open>The button\<close>

text \<open>
  Claim C9. \<open>Tapped\<close> on a disabled button returns at once: no animation is stopped or
  started, the widget is not refreshed, \<open>OnTapped\<close> is not called, and the button is
  as it was.
\<close>

theorem Tapped_disabled:
  "Disabled b \<Longrightarrow> Tapped (b, effs) = (b, effs)"
  by (simp add: Tapped_def)

text \<open>An instance, beside the same button enabled.\<close>

theorem Tapped_disabled_witness:
  "Disabled (sampleButton True False False MediumImportance)
   \<and> Tapped (sampleButton True False False MediumImportance, []) =
       (sampleButton True False False MediumImportance, [])
   \<and> Tapped (sampleButton False False False MediumImportance, []) =
       (sampleButton False False False MediumImportance,
        [AnimationStop, AnimationStart, WidgetRefresh, OnTappedCall])"
  using Tapped_disabled [of "sampleButton True False False MediumImportance" "[]"]
  by (simp add: Tapped_def Disabled_def sampleButton_def tapAnimation_def)

text \<open>
  Claim C10. The background colour follows a fixed priority: a disabled button has
  \<open>ColorDisabled\<close>; otherwise a focused button has the blend of \<open>ColorEnabled\<close> and
  \<open>ColorFocused\<close>; otherwise a hovered button has the blend of \<open>ColorPrimary\<close> (if of
  high importance) or \<open>ColorEnabled\<close> with \<open>ColorHover\<close>; otherwise a button of high
  importance has \<open>ColorPrimary\<close>; otherwise \<open>ColorEnabled\<close>. The six conditions exclude
  one another and cover every button, and the colour is a function of the button.
\<close>

theorem buttonColor_priority:
  "(Disabled b \<longrightarrow> buttonColor blendColor b = ColorDisabled b)
 \<and> (\<not> Disabled b \<and> focused b \<longrightarrow>
      buttonColor blendColor b = blendColor (ColorEnabled b) (ColorFocused b))
 \<and> (\<not> Disabled b \<and> \<not> focused b \<and> hovered b \<and> Importance b = HighImportance \<longrightarrow>
      buttonColor blendColor b = blendColor (ColorPrimary b) (ColorHover b))
 \<and> (\<not> Disabled b \<and> \<not> focused b \<and> hovered b \<and> Importance b \<noteq> HighImportance \<longrightarrow>
      buttonColor blendColor b = blendColor (ColorEnabled b) (ColorHover b))
 \<and> (\<not> Disabled b \<and> \<not> focused b \<and> \<not> hovered b \<and> Importance b = HighImportance \<longrightarrow>
      buttonColor blendColor b = ColorPrimary b)
 \<and> (\<not> Disabled b \<and> \<not> focused b \<and> \<not> hovered b \<and> Importance b \<noteq> HighImportance \<longrightarrow>
      buttonColor blendColor b = ColorEnabled b)"
  by (simp add: buttonColor_def)

text \<open>One button for each branch, with a blend that shows its two arguments.\<close>

theorem buttonColor_priority_witness:
  "buttonColor (\<lambda>under over. 10 * under + over) (sampleButton True True True HighImportance) = 2
 \<and> buttonColor (\<lambda>under over. 10 * under + over) (sampleButton False True True HighImportance) = 13
 \<and> buttonColor (\<lambda>under over. 10 * under + over) (sampleButton False False True HighImportance) = 45
 \<and> buttonColor (\<lambda>under over. 10 * under + over) (sampleButton False False True LowImportance) = 15
 \<and> buttonColor (\<lambda>under over. 10 * under + over) (sampleButton False False False HighImportance) = 4
 \<and> buttonColor (\<lambda>under over. 10 * under + over) (sampleButton False False False MediumImportance) = 1"
  using buttonColor_priority [of "sampleButton True True True HighImportance" "\<lambda>under over. 10 * under + over"]
    buttonColor_priority [of "sampleButton False True True HighImportance" "\<lambda>under over. 10 * under + over"]
    buttonColor_priority [of "sampleButton False False True HighImportance" "\<lambda>under over. 10 * under + over"]
    buttonColor_priority [of "sampleButton False False True LowImportance" "\<lambda>under over. 10 * under + over"]
    buttonColor_priority [of "sampleButton False False False HighImportance" "\<lambda>under over. 10 * under + over"]
    buttonColor_priority [of "sampleButton False False False MediumImportance" "\<lambda>under over. 10 * under + over"]
  by (simp add: Disabled_def sampleButton_def)

end
